theory Spec2Isabelle
  imports Complex_Main "HOL-Library.Word" "HOL-Library.Sublist"
begin

section \<open>Strings of the source language\<close>

text \<open>
  A JavaScript string is a sequence of UTF-16 code units. A code unit is a 16-bit word and
  a string is a list of them; \<open>length\<close> is then the \<open>length\<close> property and \<open>s ! i\<close> is
  \<open>s[i]\<close> inside the string. String literals of the source are written through \<open>str\<close>.
\<close>

type_synonym jschar = "16 word"
type_synonym jsstring = "jschar list"

definition codeUnit :: "char \<Rightarrow> jschar" where
  "codeUnit c = of_nat (of_char c)"

definition str :: "string \<Rightarrow> jsstring" where
  "str s = map codeUnit s"

text \<open>
  \<open>String.prototype.trim\<close> removes WhiteSpace and LineTerminator code points from both
  ends: TAB, LF, VT, FF, CR, SPACE, NBSP, the space separators U+1680, U+2000 to U+200A,
  U+202F, U+205F, U+3000, the separators U+2028 and U+2029, and the byte order mark U+FEFF.
\<close>

definition isWhiteSpace :: "jschar \<Rightarrow> bool" where
  "isWhiteSpace c =
     (c = 0x09 \<or> c = 0x0A \<or> c = 0x0B \<or> c = 0x0C \<or> c = 0x0D \<or> c = 0x20 \<or> c = 0xA0
      \<or> c = 0x1680 \<or> (0x2000 \<le> c \<and> c \<le> 0x200A) \<or> c = 0x2028 \<or> c = 0x2029
      \<or> c = 0x202F \<or> c = 0x205F \<or> c = 0x3000 \<or> c = 0xFEFF)"

definition trimStart :: "jsstring \<Rightarrow> jsstring" where
  "trimStart s = dropWhile isWhiteSpace s"

definition trimEnd :: "jsstring \<Rightarrow> jsstring" where
  "trimEnd s = rev (dropWhile isWhiteSpace (rev s))"

definition trim :: "jsstring \<Rightarrow> jsstring" where
  "trim s = trimEnd (trimStart s)"

text \<open>
  \<open>s.split(sep)\<close> for a separator of one code unit: the pieces between the occurrences of
  the separator, so that a string without it is one piece and the empty string gives
  \<open>['']\<close>. The second argument is the piece being read.
\<close>

fun splitFrom :: "jschar \<Rightarrow> jsstring \<Rightarrow> jsstring \<Rightarrow> jsstring list" where
  "splitFrom sep piece [] = [piece]"
| "splitFrom sep piece (c # cs) =
     (if c = sep then piece # splitFrom sep [] cs else splitFrom sep (piece @ [c]) cs)"

definition split :: "jschar \<Rightarrow> jsstring \<Rightarrow> jsstring list" where
  "split sep s = splitFrom sep [] s"

text \<open>\<open>xs.join(sep)\<close> on an array of strings.\<close>

fun join :: "jsstring \<Rightarrow> jsstring list \<Rightarrow> jsstring" where
  "join sep [] = []"
| "join sep [x] = x"
| "join sep (x # y # ys) = x @ sep @ join sep (y # ys)"

text \<open>
  \<open>s.startsWith(p)\<close>, \<open>s.endsWith(p)\<close> and \<open>s.slice(1, -1)\<close>. The slice runs from index
  1 to index \<open>max (length - 1) 0\<close> and is empty when the first is not below the second.
\<close>

definition startsWith :: "jsstring \<Rightarrow> jsstring \<Rightarrow> bool" where
  "startsWith s p = (length p \<le> length s \<and> take (length p) s = p)"

definition endsWith :: "jsstring \<Rightarrow> jsstring \<Rightarrow> bool" where
  "endsWith s p = (length p \<le> length s \<and> drop (length s - length p) s = p)"

definition slice_1_m1 :: "jsstring \<Rightarrow> jsstring" where
  "slice_1_m1 s =
     (let from = min 1 (length s); to = length s - 1
      in if from < to then take (to - from) (drop from s) else [])"

section \<open>The line tokenizer\<close>

text \<open>
  \<open>parseCSVLine\<close> scans the line with an index \<open>i\<close>, the array \<open>values\<close>, the buffer
  \<open>current\<close> and the flag \<open>inQuotes\<close>. The loop is a recursion on the code units from
  index \<open>i\<close> on: \<open>char\<close> is the first of them and \<open>nextChar\<close>, that is \<open>line[i + 1]\<close>, the
  second, \<open>undefined\<close> (here \<open>None\<close>) at the end of the line. The escaped quote advances
  \<open>i\<close> twice.
\<close>

definition nextChar :: "jsstring \<Rightarrow> jschar option" where
  "nextChar rest = (case rest of [] \<Rightarrow> None | n # _ \<Rightarrow> Some n)"

function parseCSVLine_loop ::
  "jsstring \<Rightarrow> jsstring list \<Rightarrow> jsstring \<Rightarrow> bool \<Rightarrow> jsstring list" where
  "parseCSVLine_loop [] values current inQuotes = values @ [trim current]"
| "parseCSVLine_loop (c # rest) values current inQuotes =
     (if c = 0x22 then
        (if inQuotes \<and> nextChar rest = Some 0x22
         then parseCSVLine_loop (drop 1 rest) values (current @ [0x22]) inQuotes
         else parseCSVLine_loop rest values current (\<not> inQuotes))
      else if c = 0x2C \<and> \<not> inQuotes
        then parseCSVLine_loop rest (values @ [trim current]) [] inQuotes
      else parseCSVLine_loop rest values (current @ [c]) inQuotes)"
  by pat_completeness auto
termination
  by (relation "measure (\<lambda>(line, values, current, inQuotes). length line)") auto

definition parseCSVLine :: "jsstring \<Rightarrow> jsstring list" where
  "parseCSVLine line = parseCSVLine_loop line [] [] False"

section \<open>Numbers and the conversions from strings\<close>

text \<open>
  A Number is modelled by the mathematical value of the literal it was read from, or by one
  of \<open>NaN\<close>, \<open>+Infinity\<close>, \<open>-Infinity\<close>. The rounding of that value to a binary64 double
  is not applied, and \<open>-0\<close> is not kept apart from \<open>0\<close>. Whether a conversion yields
  \<open>NaN\<close> depends on the grammar of the string alone, never on the rounding.
\<close>

datatype jsnumber = NaN | PosInf | NegInf | Fin rat

definition isNaN :: "jsnumber \<Rightarrow> bool" where
  "isNaN n = (n = NaN)"

text \<open>\<open>a == b\<close> on two Numbers: \<open>NaN\<close> equals nothing.\<close>

definition numberEquals :: "jsnumber \<Rightarrow> jsnumber \<Rightarrow> bool" where
  "numberEquals a b = (a \<noteq> NaN \<and> b \<noteq> NaN \<and> a = b)"

definition isDigit :: "jschar \<Rightarrow> bool" where
  "isDigit c = (0x30 \<le> c \<and> c \<le> 0x39)"

definition digitValue :: "jschar \<Rightarrow> nat" where
  "digitValue c =
     (if 0x30 \<le> c \<and> c \<le> 0x39 then unat c - 0x30
      else if 0x61 \<le> c \<and> c \<le> 0x7A then unat c - 0x61 + 10
      else if 0x41 \<le> c \<and> c \<le> 0x5A then unat c - 0x41 + 10
      else 36)"

definition isRadixDigit :: "nat \<Rightarrow> jschar \<Rightarrow> bool" where
  "isRadixDigit R c = (digitValue c < R)"

definition digitsValue :: "nat \<Rightarrow> jsstring \<Rightarrow> nat" where
  "digitsValue R ds = foldl (\<lambda>a c. a * R + digitValue c) 0 ds"

text \<open>An optional sign: whether it is a minus, and the rest.\<close>

definition signOf :: "jsstring \<Rightarrow> bool \<times> jsstring" where
  "signOf s =
     (case s of
        [] \<Rightarrow> (False, s)
      | c # r \<Rightarrow> if c = 0x2D then (True, r) else if c = 0x2B then (False, r) else (False, s))"

text \<open>
  ExponentPart: \<open>e\<close> or \<open>E\<close>, an optional sign and at least one digit. Without a digit
  nothing is read and the exponent is 0.
\<close>

definition scanExponent :: "jsstring \<Rightarrow> int \<times> jsstring" where
  "scanExponent s =
     (case s of
        [] \<Rightarrow> (0, s)
      | e # r \<Rightarrow>
          if e = 0x65 \<or> e = 0x45 then
            (let (minus, r1) = signOf r; ds = takeWhile isDigit r1
             in if ds = [] then (0, s)
                else (if minus then - int (digitsValue 10 ds) else int (digitsValue 10 ds),
                      dropWhile isDigit r1))
          else (0, s))"

definition scale10 :: "rat \<Rightarrow> int \<Rightarrow> rat" where
  "scale10 m e = (if 0 \<le> e then m * 10 ^ nat e else m / 10 ^ nat (- e))"

text \<open>
  The longest prefix that is a StrUnsignedDecimalLiteral other than \<open>Infinity\<close>
  (digits, \<open>.\<close>, digits, exponent, with a digit before or after the point), its
  mathematical value, and the rest of the string.
\<close>

definition scanUnsignedDecimal :: "jsstring \<Rightarrow> (rat \<times> jsstring) option" where
  "scanUnsignedDecimal s =
     (let ip = takeWhile isDigit s; r1 = dropWhile isDigit s;
          hasDot = startsWith r1 [0x2E];
          fp = (if hasDot then takeWhile isDigit (drop 1 r1) else []);
          r2 = (if hasDot then dropWhile isDigit (drop 1 r1) else r1)
      in if ip = [] \<and> fp = [] then None
         else (let (e, r3) = scanExponent r2
               in Some (scale10 (of_nat (digitsValue 10 ip)
                                 + of_nat (digitsValue 10 fp) / 10 ^ length fp) e, r3)))"

text \<open>The longest prefix that is a StrDecimalLiteral: a sign, then \<open>Infinity\<close> or the above.\<close>

definition scanStrDecimalLiteral :: "jsstring \<Rightarrow> (jsnumber \<times> jsstring) option" where
  "scanStrDecimalLiteral s =
     (let (minus, r) = signOf s
      in if startsWith r (str ''Infinity'')
         then Some (if minus then NegInf else PosInf, drop 8 r)
         else (case scanUnsignedDecimal r of
                 None \<Rightarrow> None
               | Some (q, r') \<Rightarrow> Some (Fin (if minus then - q else q), r')))"

text \<open>\<open>parseFloat(s)\<close>: leading white space is dropped and the longest such prefix is read.\<close>

definition parseFloat :: "jsstring \<Rightarrow> jsnumber" where
  "parseFloat s =
     (case scanStrDecimalLiteral (trimStart s) of None \<Rightarrow> NaN | Some (n, r) \<Rightarrow> n)"

text \<open>
  NonDecimalIntegerLiteral: \<open>0x\<close>, \<open>0o\<close> or \<open>0b\<close> (in either case) and at least one digit
  of that radix, nothing else.
\<close>

definition nonDecimalIntegerLiteral :: "jsstring \<Rightarrow> nat option" where
  "nonDecimalIntegerLiteral s =
     (case s of
        z # x # ds \<Rightarrow>
          if z = 0x30 \<and> ds \<noteq> [] then
            (if (x = 0x78 \<or> x = 0x58) \<and> list_all (isRadixDigit 16) ds
               then Some (digitsValue 16 ds)
             else if (x = 0x6F \<or> x = 0x4F) \<and> list_all (isRadixDigit 8) ds
               then Some (digitsValue 8 ds)
             else if (x = 0x62 \<or> x = 0x42) \<and> list_all (isRadixDigit 2) ds
               then Some (digitsValue 2 ds)
             else None)
          else None
      | _ \<Rightarrow> None)"

text \<open>
  \<open>Number(s)\<close>, the conversion that \<open>isNaN(s)\<close> and \<open>n == s\<close> apply to a string: white
  space is trimmed from both ends; the empty string is 0; otherwise the whole string must
  be a NonDecimalIntegerLiteral or a StrDecimalLiteral.
\<close>

definition toNumber :: "jsstring \<Rightarrow> jsnumber" where
  "toNumber s =
     (let t = trim s
      in if t = [] then Fin 0
         else (case nonDecimalIntegerLiteral t of
                 Some n \<Rightarrow> Fin (of_nat n)
               | None \<Rightarrow>
                   (case scanStrDecimalLiteral t of
                      None \<Rightarrow> NaN
                    | Some (n, r) \<Rightarrow> if r = [] then n else NaN)))"

text \<open>
  \<open>parseInt(s)\<close> without a radix: leading white space and a sign are dropped, \<open>0x\<close> or
  \<open>0X\<close> selects radix 16, and the longest prefix of digits of the radix is read.
\<close>

definition parseInt :: "jsstring \<Rightarrow> jsnumber" where
  "parseInt s =
     (let (minus, r) = signOf (trimStart s);
          hex = (startsWith r (str ''0x'') \<or> startsWith r (str ''0X''));
          R = (if hex then 16 else 10);
          Z = takeWhile (isRadixDigit R) (if hex then drop 2 r else r)
      in if Z = [] then NaN
         else Fin (if minus then - of_nat (digitsValue R Z) else of_nat (digitsValue R Z)))"

text \<open>
  \<open>s.toLowerCase()\<close>. The source only compares the result with \<open>'true'\<close> and \<open>'false'\<close>.
  The letters A to Z are mapped and every other code unit is left as it is: no code point
  outside A to Z has a lower-case form among the letters of these two words, so both
  comparisons come out as in the source.
\<close>

definition toLowerCase :: "jsstring \<Rightarrow> jsstring" where
  "toLowerCase s = map (\<lambda>c. if 0x41 \<le> c \<and> c \<le> 0x5A then c + 0x20 else c) s"

section \<open>Values and records\<close>

text \<open>
  A value of the source language, as far as the parser meets one. An object is the list of
  its own properties in insertion order; all objects here are created by \<open>{}\<close> and have
  \<open>Object.prototype\<close> as prototype.
\<close>

datatype jsvalue =
    JUndefined
  | JNull
  | JBool bool
  | JNum jsnumber
  | JStr jsstring
  | JObj "(jsstring \<times> jsvalue) list"

type_synonym jsobject = "(jsstring \<times> jsvalue) list"

text \<open>
  What a call can end with instead of a result: \<open>Error message\<close> is the source's
  \<open>throw new Error(message)\<close> and \<open>TypeError\<close> the exception of the runtime.
  \<open>BuiltinObjectReached\<close> is not an exception: it marks that \<open>setNestedProperty\<close> has walked
  out of the record into a built-in object of the runtime (through a property inherited
  from \<open>Object.prototype\<close>), whose state is outside this development; nothing is said about
  what the source does from there on.
\<close>

datatype failure = Error jsstring | TypeError | BuiltinObjectReached

definition FormatError :: failure where
  "FormatError = Error (str ''CSV must have at least header and one data row'')"

definition ValidationError :: "jsstring list \<Rightarrow> failure" where
  "ValidationError missingFields =
     Error (str ''Missing mandatory fields: '' @ join (str '', '') missingFields)"

text \<open>The property names every plain object inherits from \<open>Object.prototype\<close>.\<close>

definition objectPrototypeKeys :: "jsstring list" where
  "objectPrototypeKeys =
     [str ''constructor'', str ''__defineGetter__'', str ''__defineSetter__'',
      str ''hasOwnProperty'', str ''__lookupGetter__'', str ''__lookupSetter__'',
      str ''isPrototypeOf'', str ''propertyIsEnumerable'', str ''toString'',
      str ''valueOf'', str ''__proto__'', str ''toLocaleString'']"

fun setOwn :: "jsstring \<Rightarrow> jsvalue \<Rightarrow> jsobject \<Rightarrow> jsobject" where
  "setOwn k v [] = [(k, v)]"
| "setOwn k v (p # ps) = (if fst p = k then (k, v) # ps else p # setOwn k v ps)"

text \<open>
  \<open>current[key] = v\<close> on a plain object and a primitive \<open>v\<close>: the own property is written
  or created, except for \<open>__proto__\<close>, an accessor of \<open>Object.prototype\<close> whose setter
  ignores a primitive.
\<close>

definition assignProperty :: "jsobject \<Rightarrow> jsstring \<Rightarrow> jsvalue \<Rightarrow> jsobject" where
  "assignProperty current key v = (if key = str ''__proto__'' then current else setOwn key v current)"

section \<open>Value typing\<close>

text \<open>
  \<open>parseValue\<close> in its two steps: the removal of the quotes, which reassigns \<open>value\<close>,
  and the typing of the string \<open>value\<close> then holds.
\<close>

definition unwrapQuotes :: "jsstring \<Rightarrow> jsstring" where
  "unwrapQuotes value =
     (if (startsWith value [0x22] \<and> endsWith value [0x22])
         \<or> (startsWith value [0x27] \<and> endsWith value [0x27])
      then slice_1_m1 value else value)"

definition numericString :: "jsstring \<Rightarrow> bool" where
  "numericString value = (\<not> isNaN (toNumber value) \<and> \<not> isNaN (parseFloat value))"

definition typeUnwrapped :: "jsstring \<Rightarrow> jsvalue" where
  "typeUnwrapped value =
     (if numericString value
        then JNum (if numberEquals (parseInt value) (toNumber value)
                   then parseInt value else parseFloat value)
      else if toLowerCase value = str ''true'' then JBool True
      else if toLowerCase value = str ''false'' then JBool False
      else JStr value)"

definition parseValue :: "jsstring \<Rightarrow> jsvalue" where
  "parseValue value = typeUnwrapped (unwrapQuotes value)"

section \<open>The record builder\<close>

text \<open>
  \<open>setNestedProperty\<close> walks \<open>keys\<close> with the variable \<open>current\<close>, which starts at the
  record. The walk below returns the object \<open>current\<close> stood for at its start, as the
  assignments of the source leave it. For a key that is not the last one:
  \<^item> an own property holding an object: the walk goes on inside it;
  \<^item> an own property holding a string, number or boolean: \<open>current\<close> becomes that
    primitive; with more than one key left \<open>key in current\<close> then throws a TypeError, and
    with one key left the assignment to a property of a primitive throws a TypeError (the
    body of a class is strict code), except for \<open>__proto__\<close>, whose setter returns;
  \<open>undefined\<close> and \<open>null\<close> throw in both cases;
  \<^item> no own property, but a name inherited from \<open>Object.prototype\<close>: \<open>key in current\<close>
    holds and \<open>current\<close> becomes a built-in object;
  \<^item> otherwise \<open>current[key] = {}\<close> is created and the walk goes on inside it.
  An empty \<open>keys\<close> (which \<open>split\<close> never returns) would make \<open>finalKey\<close> undefined, the
  property name \<open>'undefined'\<close>.
\<close>

fun setNestedProperty_walk :: "jsobject \<Rightarrow> jsstring list \<Rightarrow> jsstring \<Rightarrow> failure + jsobject" where
  "setNestedProperty_walk current [] value =
     Inr (assignProperty current (str ''undefined'') (parseValue value))"
| "setNestedProperty_walk current [finalKey] value =
     Inr (assignProperty current finalKey (parseValue value))"
| "setNestedProperty_walk current (key # k2 # ks) value =
     (case map_of current key of
        None \<Rightarrow>
          if key \<in> set objectPrototypeKeys then Inl BuiltinObjectReached
          else (case setNestedProperty_walk [] (k2 # ks) value of
                  Inl e \<Rightarrow> Inl e
                | Inr child \<Rightarrow> Inr (current @ [(key, JObj child)]))
      | Some (JObj child) \<Rightarrow>
          (case setNestedProperty_walk child (k2 # ks) value of
             Inl e \<Rightarrow> Inl e
           | Inr child' \<Rightarrow> Inr (setOwn key (JObj child') current))
      | Some JUndefined \<Rightarrow> Inl TypeError
      | Some JNull \<Rightarrow> Inl TypeError
      | Some _ \<Rightarrow> if k2 # ks = [str ''__proto__''] then Inr current else Inl TypeError)"

definition setNestedProperty :: "jsobject \<Rightarrow> jsstring \<Rightarrow> jsstring \<Rightarrow> failure + jsobject" where
  "setNestedProperty obj path value = setNestedProperty_walk obj (split 0x2E path) value"

text \<open>
  The loop of \<open>createNestedObject\<close> over the header, with the record built so far.
  \<open>values[i]\<close> beyond the end of \<open>values\<close> is \<open>undefined\<close>, and \<open>undefined.trim()\<close> throws.
  A string is truthy when it is not empty.
\<close>

fun createNestedObject_loop ::
  "jsstring list \<Rightarrow> jsstring list \<Rightarrow> jsobject \<Rightarrow> failure + jsobject" where
  "createNestedObject_loop [] values result = Inr result"
| "createNestedObject_loop (h # headers) [] result = Inl TypeError"
| "createNestedObject_loop (h # headers) (v # values) result =
     (let key = trim h; value = trim v
      in if key \<noteq> [] \<and> value \<noteq> [] then
           (case setNestedProperty result key value of
              Inl e \<Rightarrow> Inl e
            | Inr result' \<Rightarrow> createNestedObject_loop headers values result')
         else createNestedObject_loop headers values result)"

definition createNestedObject :: "jsstring list \<Rightarrow> jsstring list \<Rightarrow> failure + jsobject" where
  "createNestedObject headers values = createNestedObject_loop headers values []"

definition mandatoryFields :: "jsstring list" where
  "mandatoryFields = [str ''name.firstName'', str ''name.lastName'', str ''age'']"

definition validateMandatoryFields :: "jsstring list \<Rightarrow> failure + unit" where
  "validateMandatoryFields headers =
     (let missingFields = filter (\<lambda>field. field \<notin> set headers) mandatoryFields
      in if length missingFields > 0 then Inl (ValidationError missingFields) else Inr ())"

text \<open>
  The loop of \<open>parseCSV\<close> over the data lines, with \<open>jsonData\<close> so far. The warning printed
  for a skipped row and the logging of a caught error, which is thrown again unchanged, are
  left out.
\<close>

fun parseCSV_rows ::
  "jsstring list \<Rightarrow> jsstring list \<Rightarrow> jsobject list \<Rightarrow> failure + jsobject list" where
  "parseCSV_rows headers [] jsonData = Inr jsonData"
| "parseCSV_rows headers (line # lines) jsonData =
     (let values = parseCSVLine line
      in if length values \<noteq> length headers then parseCSV_rows headers lines jsonData
         else (case createNestedObject headers values of
                 Inl e \<Rightarrow> Inl e
               | Inr jsonObject \<Rightarrow> parseCSV_rows headers lines (jsonData @ [jsonObject])))"

definition nonEmptyLines :: "jsstring \<Rightarrow> jsstring list" where
  "nonEmptyLines csvContent = filter (\<lambda>line. trim line \<noteq> []) (split 0x0A csvContent)"

definition parseCSV :: "jsstring \<Rightarrow> failure + jsobject list" where
  "parseCSV csvContent =
     (let lines = nonEmptyLines csvContent
      in if length lines < 2 then Inl FormatError
         else (let headers = parseCSVLine (lines ! 0)
               in case validateMandatoryFields headers of
                    Inl e \<Rightarrow> Inl e
                  | Inr u \<Rightarrow> parseCSV_rows headers (drop 1 lines) []))"

section \<open>Predicates used in the statements\<close>


text \<open>
  The wording of the spec for a value wrapped in quotes: at least two characters, the first
  equal to the last and a double or a single quote.
\<close>

definition spec_wrapped :: "jsstring \<Rightarrow> bool" where
  "spec_wrapped v = (2 \<le> length v \<and> hd v = last v \<and> (hd v = 0x22 \<or> hd v = 0x27))"

text \<open>
  The wording of the spec for a floating-point literal: an optional sign, digits with an
  optional decimal point, an optional exponent, and nothing before or after. The scanner of
  the unsigned decimal literal is the one the conversions use.
\<close>

definition spec_floatLiteral :: "jsstring \<Rightarrow> bool" where
  "spec_floatLiteral s =
     (case scanUnsignedDecimal (snd (signOf s)) of None \<Rightarrow> False | Some (q, r) \<Rightarrow> r = [])"

text \<open>\<open>Infinity\<close> with an optional sign.\<close>

definition infinityLiteral :: "jsstring \<Rightarrow> bool" where
  "infinityLiteral s = (snd (signOf s) = str ''Infinity'')"

text \<open>A string that starts with a digit, or with a point and a digit.\<close>

fun decimalStart :: "jsstring \<Rightarrow> bool" where
  "decimalStart [] = False"
| "decimalStart [c] = isDigit c"
| "decimalStart (c # d # r) = (isDigit c \<or> (c = 0x2E \<and> isDigit d))"

text \<open>
  StrNumericLiteral of the language: a decimal literal as above, a signed \<open>Infinity\<close>, or
  an unsigned integer literal with the prefix \<open>0x\<close>, \<open>0o\<close> or \<open>0b\<close>.
\<close>

definition jsNumericLiteral :: "jsstring \<Rightarrow> bool" where
  "jsNumericLiteral t =
     (spec_floatLiteral t \<or> infinityLiteral t \<or> nonDecimalIntegerLiteral t \<noteq> None)"







text \<open>A line in which no double quote is followed at once by another.\<close>

fun noDoubledQuote :: "jsstring \<Rightarrow> bool" where
  "noDoubledQuote (a # b # r) = (\<not> (a = 0x22 \<and> b = 0x22) \<and> noDoubledQuote (b # r))"
| "noDoubledQuote r = True"


section \<open>The tokenizer on quoted fields\<close>

lemma set_trim: "set (trim s) \<subseteq> set s"
proof -
  have "set (trimEnd t) \<subseteq> set t" for t
    using set_dropWhileD [of _ isWhiteSpace "rev t"] by (auto simp: trimEnd_def)
  moreover have "set (trimStart s) \<subseteq> set s"
    using set_dropWhileD [of _ isWhiteSpace s] by (auto simp: trimStart_def)
  ultimately show ?thesis
    unfolding trim_def by blast
qed

lemma noDoubledQuote_tail: "noDoubledQuote (c # rest) \<Longrightarrow> noDoubledQuote rest"
  by (cases rest) simp_all

lemma loop_no_quote:
  "noDoubledQuote l \<Longrightarrow> 0x22 \<notin> set cur \<Longrightarrow> (\<forall>f\<in>set vals. 0x22 \<notin> set f) \<Longrightarrow>
   (\<forall>f\<in>set (parseCSVLine_loop l vals cur inq). 0x22 \<notin> set f)"
proof (induction l vals cur inq rule: parseCSVLine_loop.induct)
  case (1 vals cur inq)
  then show ?case
    using set_trim [of cur] by auto
next
  case (2 c rest vals cur inq)
  have tail: "noDoubledQuote rest"
    using "2.prems"(1) by (rule noDoubledQuote_tail)
  show ?case
  proof (cases "c = 0x22")
    case True
    have n: "\<not> (inq \<and> nextChar rest = Some 0x22)"
      using "2.prems"(1) True by (cases rest) (simp_all add: nextChar_def)
    have step: "parseCSVLine_loop (c # rest) vals cur inq
                = parseCSVLine_loop rest vals cur (\<not> inq)"
      using True n by (cases inq) simp_all
    show ?thesis
      unfolding step by (rule "2.IH"(2) [OF True n tail "2.prems"(2,3)])
  next
    case False
    show ?thesis
    proof (cases "c = 0x2C \<and> \<not> inq")
      case True
      have "\<forall>f\<in>set (vals @ [trim cur]). 0x22 \<notin> set f"
        using "2.prems"(2,3) set_trim [of cur] by auto
      moreover have step: "parseCSVLine_loop (c # rest) vals cur inq
                  = parseCSVLine_loop rest (vals @ [trim cur]) [] inq"
        using False True by (cases inq) simp_all
      ultimately show ?thesis
        unfolding step by (intro "2.IH"(3) [OF False True tail]) simp_all
    next
      case nc: False
      have "0x22 \<notin> set (cur @ [c])"
        using "2.prems"(2) False by simp
      moreover have step: "parseCSVLine_loop (c # rest) vals cur inq
                  = parseCSVLine_loop rest vals (cur @ [c]) inq"
        using False nc by (cases "c = 0x2C"; cases inq) simp_all
      ultimately show ?thesis
        unfolding step by (intro "2.IH"(4) [OF False nc tail _ "2.prems"(3)])
    qed
  qed
qed

text \<open>
  Claim C6. Tokenizing \<open>foo,"bar,baz",qux\<close> yields the three fields \<open>foo\<close>, \<open>bar,baz\<close>
  and \<open>qux\<close>. In every state of the scan, a comma met inside quotes is appended to the
  buffer and ends no field, and a comma met outside quotes appends the trimmed buffer to the
  fields and empties the buffer. The quotes that wrap a field do not reach the output: on
  every line without two double quotes in a row, no field holds a double quote.
\<close>

theorem parseCSVLine_quoted_comma:
  "parseCSVLine (str ''foo,\"bar,baz\",qux'') = [str ''foo'', str ''bar,baz'', str ''qux'']
   \<and> parseCSVLine_loop (0x2C # rest) values current True
       = parseCSVLine_loop rest values (current @ [0x2C]) True
   \<and> parseCSVLine_loop (0x2C # rest) values current False
       = parseCSVLine_loop rest (values @ [trim current]) [] False
   \<and> (noDoubledQuote line \<longrightarrow> (\<forall>field\<in>set (parseCSVLine line). 0x22 \<notin> set field))"
proof -
  have "parseCSVLine (str ''foo,\"bar,baz\",qux'') = [str ''foo'', str ''bar,baz'', str ''qux'']"
    by code_simp
  moreover have "noDoubledQuote line \<Longrightarrow> (\<forall>field\<in>set (parseCSVLine line). 0x22 \<notin> set field)"
    unfolding parseCSVLine_def by (rule loop_no_quote) simp_all
  ultimately show ?thesis by simp
qed


theorem parseCSVLine_quoted_comma_witness:
  "parseCSVLine_loop (str '',a'') [] (str '' x '') False = [str ''x'', str ''a'']
   \<and> parseCSVLine_loop (str '',a'') [] (str ''x'') True = [str ''x,a'']
   \<and> length (parseCSVLine (str ''foo,\"bar,baz\",qux'')) = 3
   \<and> noDoubledQuote (str ''foo,\"bar,baz\",qux'')
   \<and> 0x22 \<notin> set (parseCSVLine (str ''foo,\"bar,baz\",qux'') ! 1)"
proof -
  have a: "parseCSVLine_loop (str ''a'') [trim (str '' x '')] [] False = [str ''x'', str ''a'']"
    by code_simp
  have b: "parseCSVLine_loop (str ''a'') [] (str ''x'' @ [0x2C]) True = [str ''x,a'']"
    by code_simp
  have s: "str '',a'' = 0x2C # str ''a''"
    by (simp add: str_def codeUnit_def)
  have n: "noDoubledQuote (str ''foo,\"bar,baz\",qux'')"
    by code_simp
  note t = parseCSVLine_quoted_comma [of "str ''a''" "[]" "str ''x''" "str ''foo,\"bar,baz\",qux''"]
  have l: "length (parseCSVLine (str ''foo,\"bar,baz\",qux'')) = 3"
    using t by simp
  then have "parseCSVLine (str ''foo,\"bar,baz\",qux'') ! 1
             \<in> set (parseCSVLine (str ''foo,\"bar,baz\",qux''))"
    by (intro nth_mem) simp
  then have q: "0x22 \<notin> set (parseCSVLine (str ''foo,\"bar,baz\",qux'') ! 1)"
    using t n by blast
  have x: "parseCSVLine_loop (str '',a'') [] (str ''x'') True = [str ''x,a'']"
    using t b unfolding s by simp
  have y: "parseCSVLine_loop (str '',a'') [] (str '' x '') False = [str ''x'', str ''a'']"
    using parseCSVLine_quoted_comma [of "str ''a''" "[]" "str '' x ''"] a unfolding s by simp
  show ?thesis
    using x y l n q by blast
qed


text \<open>
  Claim C7. Tokenizing \<open>"he said ""hi"""\<close> yields the single field \<open>he said "hi"\<close>.
  Inside quotes, a quote followed by a quote appends one quote to the buffer and the scan
  goes on behind both; any other quote only flips the inside-quotes flag.
\<close>

theorem parseCSVLine_escaped_quote:
  "parseCSVLine (str ''\"he said \"\"hi\"\"\"'') = [str ''he said \"hi\"'']
   \<and> parseCSVLine_loop (0x22 # 0x22 # rest) values current True
       = parseCSVLine_loop rest values (current @ [0x22]) True
   \<and> (nextChar rest \<noteq> Some 0x22 \<longrightarrow>
        parseCSVLine_loop (0x22 # rest) values current True
        = parseCSVLine_loop rest values current False)
   \<and> parseCSVLine_loop (0x22 # rest) values current False
       = parseCSVLine_loop rest values current True"
proof -
  have "parseCSVLine (str ''\"he said \"\"hi\"\"\"'') = [str ''he said \"hi\"'']"
    by code_simp
  then show ?thesis by (simp add: nextChar_def)
qed

theorem parseCSVLine_escaped_quote_witness:
  "nextChar (str ''b'') \<noteq> Some 0x22
   \<and> parseCSVLine_loop (str ''\"b'') [] (str ''a'') True = [str ''ab'']
   \<and> parseCSVLine_loop (str ''\"\"b'') [] (str ''a'') True = [str ''a\"b'']"
proof -
  have n: "nextChar (str ''b'') \<noteq> Some 0x22"
    by code_simp
  have s: "str ''\"b'' = 0x22 # str ''b''" "str ''\"\"b'' = 0x22 # 0x22 # str ''b''"
    by (simp_all add: str_def codeUnit_def)
  have a: "parseCSVLine_loop (str ''b'') [] (str ''a'') False = [str ''ab'']"
    by code_simp
  have b: "parseCSVLine_loop (str ''b'') [] (str ''a'' @ [0x22]) True = [str ''a\"b'']"
    by code_simp
  show ?thesis
    using parseCSVLine_escaped_quote [of "str ''b''" "[]" "str ''a''"] n a b
    by (simp add: s)
qed

section \<open>Failures of a parse\<close>

lemma trim_eq_Nil_iff: "trim l = [] \<longleftrightarrow> (\<forall>c\<in>set l. isWhiteSpace c)"
proof -
  let ?d = "dropWhile isWhiteSpace l"
  have "trim l = [] \<longleftrightarrow> (\<forall>c\<in>set ?d. isWhiteSpace c)"
    by (simp add: trim_def trimEnd_def trimStart_def dropWhile_eq_Nil_conv)
  also have "\<dots> \<longleftrightarrow> ?d = []"
  proof
    assume all: "\<forall>c\<in>set ?d. isWhiteSpace c"
    show "?d = []"
    proof (rule ccontr)
      assume ne: "?d \<noteq> []"
      then have "\<not> isWhiteSpace (hd ?d)"
        by (rule hd_dropWhile)
      moreover have "hd ?d \<in> set ?d"
        using ne by (rule hd_in_set)
      ultimately show False
        using all by blast
    qed
  next
    assume "?d = []"
    then show "\<forall>c\<in>set ?d. isWhiteSpace c"
      by (auto dest: set_dropWhileD)
  qed
  also have "\<dots> \<longleftrightarrow> (\<forall>c\<in>set l. isWhiteSpace c)"
    by (simp add: dropWhile_eq_Nil_conv)
  finally show ?thesis .
qed

lemma splitFrom_no_sep: "sep \<notin> set s \<Longrightarrow> splitFrom sep piece s = [piece @ s]"
  by (induction s arbitrary: piece) auto

lemma split_no_sep: "sep \<notin> set s \<Longrightarrow> split sep s = [s]"
  by (simp add: split_def splitFrom_no_sep)

lemma walk_failure:
  "setNestedProperty_walk obj ks v = Inl e \<Longrightarrow> e = TypeError \<or> e = BuiltinObjectReached"
  by (induction obj ks v rule: setNestedProperty_walk.induct)
     (auto split: option.splits jsvalue.splits sum.splits if_splits)

lemma createNestedObject_loop_failure:
  "createNestedObject_loop hs vs obj = Inl e \<Longrightarrow> e = TypeError \<or> e = BuiltinObjectReached"
  by (induction hs vs obj rule: createNestedObject_loop.induct)
     (auto simp: Let_def setNestedProperty_def split: sum.splits if_splits dest: walk_failure)

lemma parseCSV_rows_failure:
  "parseCSV_rows hs ls acc = Inl e \<Longrightarrow> e = TypeError \<or> e = BuiltinObjectReached"
  by (induction hs ls acc rule: parseCSV_rows.induct)
     (auto simp: Let_def createNestedObject_def split: sum.splits if_splits dest: createNestedObject_loop_failure)

lemma ValidationError_not_FormatError: "ValidationError missing \<noteq> FormatError"
  by (simp add: ValidationError_def FormatError_def str_def codeUnit_def)

lemma FormatError_neq: "FormatError \<noteq> TypeError" "FormatError \<noteq> BuiltinObjectReached"
  by (simp_all add: FormatError_def)


text \<open>
  Claim C3. \<open>parseCSV\<close> fails with the error \<open>CSV must have at least header and one data
  row\<close> (the spec's FormatError) exactly when, of the pieces between the newlines of the
  input, fewer than two hold a code unit that is not white space. In particular an input
  without a newline, a header line alone, fails so.
\<close>

theorem parseCSV_FormatError_iff:
  "(parseCSV csvContent = Inl FormatError
      \<longleftrightarrow> length (filter (\<lambda>line. \<exists>c\<in>set line. \<not> isWhiteSpace c) (split 0x0A csvContent)) < 2)
   \<and> (0x0A \<notin> set header \<longrightarrow> parseCSV header = Inl FormatError)"
proof -
  have lines: "nonEmptyLines s = filter (\<lambda>line. \<exists>c\<in>set line. \<not> isWhiteSpace c) (split 0x0A s)" for s
    by (simp add: nonEmptyLines_def trim_eq_Nil_iff)
  have short: "parseCSV s = Inl FormatError" if "length (nonEmptyLines s) < 2" for s
    using that by (simp add: parseCSV_def)
  have long: "parseCSV s \<noteq> Inl FormatError" if "\<not> length (nonEmptyLines s) < 2" for s
  proof
    assume f: "parseCSV s = Inl FormatError"
    let ?h = "parseCSVLine (nonEmptyLines s ! 0)"
    show False
    proof (cases "validateMandatoryFields ?h")
      case (Inl e)
      then obtain m where "e = ValidationError m"
        by (auto simp: validateMandatoryFields_def Let_def split: if_splits)
      with Inl f that show False
        by (simp add: parseCSV_def Let_def ValidationError_not_FormatError)
    next
      case (Inr u)
      with f that have "parseCSV_rows ?h (drop 1 (nonEmptyLines s)) [] = Inl FormatError"
        by (simp add: parseCSV_def Let_def)
      then show False
        using parseCSV_rows_failure FormatError_neq by blast
    qed
  qed
  have one: "parseCSV header = Inl FormatError" if "0x0A \<notin> set header"
    using that by (intro short) (simp add: nonEmptyLines_def split_no_sep)
  show ?thesis
    using short [of csvContent] long [of csvContent] one by (auto simp: lines)
qed

theorem parseCSV_FormatError_iff_witness:
  "0x0A \<notin> set (str ''name.firstName,name.lastName,age'')
   \<and> parseCSV (str ''name.firstName,name.lastName,age'') = Inl FormatError
   \<and> length (filter (\<lambda>line. \<exists>c\<in>set line. \<not> isWhiteSpace c)
        (split 0x0A (str ''a,b'' @ [0x0A] @ str '' '' @ [0x0A] @ str ''1,2''))) = 2
   \<and> parseCSV (str ''a,b'' @ [0x0A] @ str '' '' @ [0x0A] @ str ''1,2'') \<noteq> Inl FormatError"
proof -
  have a: "0x0A \<notin> set (str ''name.firstName,name.lastName,age'')"
    by code_simp
  have b: "length (filter (\<lambda>line. \<exists>c\<in>set line. \<not> isWhiteSpace c)
        (split 0x0A (str ''a,b'' @ [0x0A] @ str '' '' @ [0x0A] @ str ''1,2''))) = 2"
    by code_simp
  show ?thesis
    using parseCSV_FormatError_iff [of "str ''a,b'' @ [0x0A] @ str '' '' @ [0x0A] @ str ''1,2''"
        "str ''name.firstName,name.lastName,age''"] a b
    by simp
qed


text \<open>
  Claim C2. On an input with at least two non-empty lines, \<open>parseCSV\<close> fails with the error
  \<open>Missing mandatory fields: ...\<close> (the spec's ValidationError) exactly when one of
  \<open>name.firstName\<close>, \<open>name.lastName\<close>, \<open>age\<close> is not among the header's paths; the
  message then lists all the missing paths, joined by \<open>', '\<close>. Nothing is assumed of the
  data rows: the error is raised whatever they hold, before any of them is read.
\<close>

theorem parseCSV_ValidationError_iff:
  "2 \<le> length (nonEmptyLines csvContent) \<Longrightarrow>
   headers = parseCSVLine (nonEmptyLines csvContent ! 0) \<Longrightarrow>
   missing = filter (\<lambda>field. field \<notin> set headers) mandatoryFields \<Longrightarrow>
   set missing = {str ''name.firstName'', str ''name.lastName'', str ''age''} - set headers
   \<and> ((\<exists>m. parseCSV csvContent = Inl (ValidationError m)) \<longleftrightarrow> missing \<noteq> [])
   \<and> (missing \<noteq> [] \<longrightarrow>
        parseCSV csvContent
        = Inl (Error (str ''Missing mandatory fields: '' @ join (str '', '') missing)))"
proof -
  assume len: "2 \<le> length (nonEmptyLines csvContent)"
    and h: "headers = parseCSVLine (nonEmptyLines csvContent ! 0)"
    and m: "missing = filter (\<lambda>field. field \<notin> set headers) mandatoryFields"
  have s: "set missing = {str ''name.firstName'', str ''name.lastName'', str ''age''} - set headers"
    by (auto simp: m mandatoryFields_def)
  have bad: "parseCSV csvContent = Inl (ValidationError missing)" if "missing \<noteq> []"
    using that len h m by (simp add: parseCSV_def Let_def validateMandatoryFields_def)
  have good: "parseCSV csvContent \<noteq> Inl (ValidationError x)" if "missing = []" for x
  proof
    assume f: "parseCSV csvContent = Inl (ValidationError x)"
    from that len h m f
    have "parseCSV_rows headers (drop 1 (nonEmptyLines csvContent)) [] = Inl (ValidationError x)"
      by (simp add: parseCSV_def Let_def validateMandatoryFields_def)
    then show False
      using parseCSV_rows_failure by (fastforce simp: ValidationError_def)
  qed
  show ?thesis
    using s bad good by (auto simp: ValidationError_def)
qed

theorem parseCSV_ValidationError_iff_witness:
  "2 \<le> length (nonEmptyLines (str ''name.firstName,age,age.x.y'' @ [0x0A] @ str ''Ann,30,1''))
   \<and> parseCSVLine (nonEmptyLines (str ''name.firstName,age,age.x.y'' @ [0x0A] @ str ''Ann,30,1'') ! 0)
       = [str ''name.firstName'', str ''age'', str ''age.x.y'']
   \<and> parseCSV (str ''name.firstName,age,age.x.y'' @ [0x0A] @ str ''Ann,30,1'')
       = Inl (ValidationError [str ''name.lastName''])
   \<and> parseCSV (str ''x,y'' @ [0x0A] @ str ''1,2'')
       = Inl (Error (str ''Missing mandatory fields: name.firstName, name.lastName, age''))"
proof -
  let ?c = "str ''name.firstName,age,age.x.y'' @ [0x0A] @ str ''Ann,30,1''"
  let ?d = "str ''x,y'' @ [0x0A] @ str ''1,2''"
  have lc: "2 \<le> length (nonEmptyLines ?c)" and ld: "2 \<le> length (nonEmptyLines ?d)"
    by code_simp+
  have hc: "parseCSVLine (nonEmptyLines ?c ! 0) = [str ''name.firstName'', str ''age'', str ''age.x.y'']"
    by code_simp
  have mc: "filter (\<lambda>field. field \<notin> set (parseCSVLine (nonEmptyLines ?c ! 0))) mandatoryFields
            = [str ''name.lastName'']"
    by code_simp
  have md: "filter (\<lambda>field. field \<notin> set (parseCSVLine (nonEmptyLines ?d ! 0))) mandatoryFields
            = mandatoryFields"
    by code_simp
  have j: "str ''Missing mandatory fields: '' @ join (str '', '') mandatoryFields
           = str ''Missing mandatory fields: name.firstName, name.lastName, age''"
    by code_simp
  have ne: "mandatoryFields \<noteq> []" "[str ''name.lastName''] \<noteq> ([] :: jsstring list)"
    by (simp_all add: mandatoryFields_def)
  have c: "parseCSV ?c = Inl (ValidationError [str ''name.lastName''])"
    using parseCSV_ValidationError_iff [of ?c, OF lc refl refl] ne
    unfolding mc ValidationError_def by blast
  have d: "parseCSV ?d = Inl (Error (str ''Missing mandatory fields: name.firstName, name.lastName, age''))"
    using parseCSV_ValidationError_iff [of ?d, OF ld refl refl] ne
    unfolding md j by blast
  show ?thesis
    using lc hc c d by blast
qed


section \<open>A header path below a scalar path\<close>

text \<open>
  Claim C1, at an input where the source does not return. The header holds the mandatory
  fields and the one data row has as many fields as the header, so that the claim promises
  one record. The row sets \<open>age\<close> to the number 30 and then walks the path \<open>age.x.y\<close>:
  \<open>current\<close> becomes 30 and \<open>'x' in current\<close> throws a TypeError, which \<open>parseCSV\<close> throws
  on.
\<close>

theorem parseCSV_scalar_parent_TypeError:
  "parseCSV (str ''name.firstName,name.lastName,age,age.x.y'' @ [0x0A] @ str ''Ann,Lee,30,1'')
   = Inl TypeError"
  by code_simp

text \<open>
  What \<open>parseCSV\<close> does on the rows apart from such a failure. When the loop over the data
  lines returns, it has appended to \<open>jsonData\<close>, in the order of the lines, the record of
  every line whose field count is that of the header, and nothing for the other lines. It
  returns whenever the record of each such line can be built.
\<close>

lemma parseCSV_rows_result:
  "parseCSV_rows hs ls acc = Inr out \<Longrightarrow>
   map Inr out
   = map Inr acc @ map (\<lambda>l. createNestedObject hs (parseCSVLine l))
                       (filter (\<lambda>l. length (parseCSVLine l) = length hs) ls)"
proof (induction hs ls acc rule: parseCSV_rows.induct)
  case (1 hs acc)
  then show ?case by simp
next
  case (2 hs l ls acc)
  show ?case
  proof (cases "length (parseCSVLine l) \<noteq> length hs")
    case True
    with "2.prems" have "parseCSV_rows hs ls acc = Inr out"
      by (simp add: Let_def)
    then show ?thesis
      using "2.IH"(1) [OF refl True] True by simp
  next
    case False
    with "2.prems"(1) obtain obj where
      o: "createNestedObject hs (parseCSVLine l) = Inr obj"
      and r: "parseCSV_rows hs ls (acc @ [obj]) = Inr out"
      by (auto simp: Let_def split: sum.splits)
    show ?thesis
      using "2.IH"(2) [OF refl False o r] o False by simp
  qed
qed

lemma parseCSV_rows_returns:
  "(\<forall>l\<in>set ls. length (parseCSVLine l) = length hs
       \<longrightarrow> (\<exists>r. createNestedObject hs (parseCSVLine l) = Inr r)) \<Longrightarrow>
   \<exists>out. parseCSV_rows hs ls acc = Inr out"
proof (induction hs ls acc rule: parseCSV_rows.induct)
  case (1 hs acc)
  then show ?case by simp
next
  case (2 hs l ls acc)
  show ?case
  proof (cases "length (parseCSVLine l) \<noteq> length hs")
    case True
    then show ?thesis
      using "2.IH"(1) [OF refl True] "2.prems" by (simp add: Let_def)
  next
    case False
    with "2.prems" obtain obj where o: "createNestedObject hs (parseCSVLine l) = Inr obj"
      by auto
    show ?thesis
      using "2.IH"(2) [OF refl False o] "2.prems" o False by (simp add: Let_def)
  qed
qed

section \<open>Removal of wrapping quotes\<close>

lemma startsWith_single: "startsWith v [c] \<longleftrightarrow> v \<noteq> [] \<and> hd v = c"
  by (cases v) (auto simp: startsWith_def)

lemma endsWith_single: "endsWith v [c] \<longleftrightarrow> v \<noteq> [] \<and> last v = c"
proof (cases v rule: rev_cases)
  case Nil
  then show ?thesis by (simp add: endsWith_def)
next
  case (snoc ys y)
  then show ?thesis by (auto simp: endsWith_def)
qed

lemma slice_1_m1_butlast_tl: "slice_1_m1 v = butlast (tl v)"
proof (cases v)
  case Nil
  then show ?thesis by (simp add: slice_1_m1_def)
next
  case (Cons c cs)
  then show ?thesis
    by (cases cs) (simp_all add: slice_1_m1_def butlast_conv_take)
qed

lemma unwrapQuotes_char:
  "unwrapQuotes v
   = (if v \<noteq> [] \<and> hd v = last v \<and> (hd v = 0x22 \<or> hd v = 0x27) then butlast (tl v) else v)"
  by (auto simp: unwrapQuotes_def startsWith_single endsWith_single slice_1_m1_butlast_tl)


text \<open>
  Claim C9, as the spec words it, at a string of one single quote: it has fewer than two
  characters, so the claim types it with its quote intact, as the string \<open>'\<close>; the source
  finds that it starts and ends with a single quote, slices it to the empty string and
  returns the empty string.
\<close>

theorem parseValue_lone_quote_counterexample:
  "\<not> spec_wrapped [0x27] \<and> parseValue [0x27] = JStr [] \<and> typeUnwrapped [0x27] = JStr [0x27]"
  by code_simp

text \<open>
  Claim C9, amended. \<open>parseValue\<close> removes the first and the last character, one layer of
  quotes, before typing exactly when the string is not empty, its first character equals its
  last and is a double or a single quote; every other string is typed as it is. From two
  characters on this is the condition of the spec; the strings of one quote character are
  unwrapped as well, to the empty string.
\<close>

theorem parseValue_unwraps_quotes:
  "parseValue v
   = typeUnwrapped (if v \<noteq> [] \<and> hd v = last v \<and> (hd v = 0x22 \<or> hd v = 0x27)
                    then butlast (tl v) else v)
   \<and> (2 \<le> length v \<longrightarrow>
        (v \<noteq> [] \<and> hd v = last v \<and> (hd v = 0x22 \<or> hd v = 0x27)) = spec_wrapped v)"
  by (auto simp: parseValue_def unwrapQuotes_char spec_wrapped_def)


theorem parseValue_unwraps_quotes_witness:
  "parseValue (str ''\"\"42\"\"'') = typeUnwrapped (str ''\"42\"'')
   \<and> parseValue (str ''\"42\"'') = JNum (Fin 42)
   \<and> parseValue (str ''\"42'') = JStr (str ''\"42'')
   \<and> spec_wrapped (str ''\"42\"'')"
proof -
  have a: "(if str ''\"\"42\"\"'' \<noteq> [] \<and> hd (str ''\"\"42\"\"'') = last (str ''\"\"42\"\"'')
              \<and> (hd (str ''\"\"42\"\"'') = 0x22 \<or> hd (str ''\"\"42\"\"'') = 0x27)
           then butlast (tl (str ''\"\"42\"\"'')) else str ''\"\"42\"\"'') = str ''\"42\"''"
    by code_simp
  have b: "(if str ''\"42\"'' \<noteq> [] \<and> hd (str ''\"42\"'') = last (str ''\"42\"'')
              \<and> (hd (str ''\"42\"'') = 0x22 \<or> hd (str ''\"42\"'') = 0x27)
           then butlast (tl (str ''\"42\"'')) else str ''\"42\"'') = str ''42''"
    by code_simp
  have c: "(if str ''\"42'' \<noteq> [] \<and> hd (str ''\"42'') = last (str ''\"42'')
              \<and> (hd (str ''\"42'') = 0x22 \<or> hd (str ''\"42'') = 0x27)
           then butlast (tl (str ''\"42'')) else str ''\"42'') = str ''\"42''"
    by code_simp
  have t: "typeUnwrapped (str ''42'') = JNum (Fin 42)" "typeUnwrapped (str ''\"42'') = JStr (str ''\"42'')"
    by code_simp+
  have l: "2 \<le> length (str ''\"42\"'')" "str ''\"42\"'' \<noteq> []" "hd (str ''\"42\"'') = last (str ''\"42\"'')" "hd (str ''\"42\"'') = 0x22"
    by code_simp+
  have w: "spec_wrapped (str ''\"42\"'')"
    using parseValue_unwraps_quotes [of "str ''\"42\"''"] l by blast
  show ?thesis
    using parseValue_unwraps_quotes [of "str ''\"\"42\"\"''"] parseValue_unwraps_quotes [of "str ''\"42\"''"]
      parseValue_unwraps_quotes [of "str ''\"42''"] w
    unfolding a b c t by blast
qed


section \<open>The numeric branch of value typing\<close>

lemma scanUnsignedDecimal_start: "scanUnsignedDecimal r \<noteq> None \<longleftrightarrow> decimalStart r"
proof (cases r)
  case Nil
  then show ?thesis by (simp add: scanUnsignedDecimal_def startsWith_def)
next
  case (Cons c cs)
  show ?thesis
  proof (cases "isDigit c")
    case True
    with Cons show ?thesis
      by (cases cs) (simp_all add: scanUnsignedDecimal_def Let_def split: prod.splits)
  next
    case False
    with Cons show ?thesis
      by (cases cs) (simp_all add: scanUnsignedDecimal_def Let_def startsWith_def split: prod.splits)
  qed
qed

lemma decimalStart_append: "decimalStart r \<Longrightarrow> decimalStart (r @ w)"
  by (induction r rule: decimalStart.induct) (cases w; simp)+

lemma startsWith_append: "startsWith r p \<Longrightarrow> startsWith (r @ w) p"
  by (simp add: startsWith_def)

lemma scanStrDecimalLiteral_start:
  "scanStrDecimalLiteral s \<noteq> None
   \<longleftrightarrow> startsWith (snd (signOf s)) (str ''Infinity'') \<or> decimalStart (snd (signOf s))"
  using scanUnsignedDecimal_start [of "snd (signOf s)"]
  by (cases "signOf s") (auto simp: scanStrDecimalLiteral_def split: option.splits)

lemma signOf_append: "t \<noteq> [] \<Longrightarrow> snd (signOf (t @ w)) = snd (signOf t) @ w"
  by (cases t) (simp_all add: signOf_def)

lemma scanStrDecimalLiteral_append:
  assumes "t \<noteq> []" and "scanStrDecimalLiteral t \<noteq> None"
  shows "scanStrDecimalLiteral (t @ w) \<noteq> None"
proof -
  have "startsWith (snd (signOf t)) (str ''Infinity'') \<or> decimalStart (snd (signOf t))"
    using assms(2) scanStrDecimalLiteral_start [of t] by blast
  then have "startsWith (snd (signOf (t @ w))) (str ''Infinity'')
             \<or> decimalStart (snd (signOf (t @ w)))"
    using assms(1) by (auto simp: signOf_append startsWith_append decimalStart_append)
  then show ?thesis
    using scanStrDecimalLiteral_start [of "t @ w"] by blast
qed

lemma trimStart_trim: "\<exists>w. trimStart u = trim u @ w"
proof -
  have "rev (trimStart u)
        = takeWhile isWhiteSpace (rev (trimStart u)) @ dropWhile isWhiteSpace (rev (trimStart u))"
    by simp
  then have "trimStart u
             = rev (dropWhile isWhiteSpace (rev (trimStart u)))
               @ rev (takeWhile isWhiteSpace (rev (trimStart u)))"
    by (metis rev_append rev_rev_ident)
  then show ?thesis
    by (auto simp: trim_def trimEnd_def)
qed

lemma trimStart_Nil: "trim u = [] \<Longrightarrow> trimStart u = []"
  by (simp add: trim_eq_Nil_iff trimStart_def)

lemma scan_Infinity_None: "startsWith r (str ''Infinity'') \<Longrightarrow> scanUnsignedDecimal r = None"
proof -
  assume a: "startsWith r (str ''Infinity'')"
  have "\<not> decimalStart r"
  proof (cases r)
    case Nil
    then show ?thesis by simp
  next
    case (Cons c cs)
    with a have "c = 0x49"
      by (simp add: startsWith_def str_def codeUnit_def)
    with Cons show ?thesis
      by (cases cs) (simp_all add: isDigit_def)
  qed
  then show ?thesis
    using scanUnsignedDecimal_start [of r] by blast
qed

lemma startsWith_whole: "startsWith r p \<and> drop (length p) r = [] \<longleftrightarrow> r = p"
proof
  assume a: "startsWith r p \<and> drop (length p) r = []"
  have "r = take (length p) r @ drop (length p) r"
    by simp
  with a show "r = p"
    by (simp add: startsWith_def)
next
  assume "r = p"
  then show "startsWith r p \<and> drop (length p) r = []"
    by (simp add: startsWith_def)
qed

lemma scanStrDecimalLiteral_Nil: "scanStrDecimalLiteral [] = None"
  by (simp add: scanStrDecimalLiteral_def signOf_def startsWith_def str_def
      scanUnsignedDecimal_def)

lemma scanStrDecimalLiteral_whole:
  "(\<exists>n. scanStrDecimalLiteral t = Some (n, [])) \<longleftrightarrow> spec_floatLiteral t \<or> infinityLiteral t"
proof (cases "startsWith (snd (signOf t)) (str ''Infinity'')")
  case True
  have l: "length (str ''Infinity'') = 8"
    by (simp add: str_def)
  from True have "\<not> spec_floatLiteral t"
    by (simp add: spec_floatLiteral_def scan_Infinity_None)
  moreover have "(\<exists>n. scanStrDecimalLiteral t = Some (n, [])) \<longleftrightarrow> drop 8 (snd (signOf t)) = []"
    using True by (cases "signOf t") (simp add: scanStrDecimalLiteral_def)
  moreover have "drop 8 (snd (signOf t)) = [] \<longleftrightarrow> infinityLiteral t"
    using True startsWith_whole [of "snd (signOf t)" "str ''Infinity''"]
    unfolding l infinityLiteral_def by blast
  ultimately show ?thesis by blast
next
  case False
  then have "\<not> infinityLiteral t"
    by (auto simp: infinityLiteral_def startsWith_def)
  moreover have "(\<exists>n. scanStrDecimalLiteral t = Some (n, [])) \<longleftrightarrow> spec_floatLiteral t"
    using False
    by (cases "signOf t")
       (auto simp: scanStrDecimalLiteral_def spec_floatLiteral_def split: option.splits)
  ultimately show ?thesis by blast
qed

lemma scanStrDecimalLiteral_not_NaN: "scanStrDecimalLiteral t = Some (n, r) \<Longrightarrow> n \<noteq> NaN"
  by (cases "signOf t") (auto simp: scanStrDecimalLiteral_def split: option.splits if_splits)

lemma jsNumericLiteral_Nil: "\<not> jsNumericLiteral []"
  by (simp add: jsNumericLiteral_def spec_floatLiteral_def infinityLiteral_def signOf_def
      scanUnsignedDecimal_def startsWith_def nonDecimalIntegerLiteral_def str_def)

lemma toNumber_NaN_iff: "toNumber u \<noteq> NaN \<longleftrightarrow> trim u = [] \<or> jsNumericLiteral (trim u)"
proof (cases "trim u = []")
  case True
  then show ?thesis by (simp add: toNumber_def)
next
  case False
  show ?thesis
  proof (cases "nonDecimalIntegerLiteral (trim u)")
    case (Some n)
    with False show ?thesis by (simp add: toNumber_def jsNumericLiteral_def)
  next
    case None
    have "toNumber u \<noteq> NaN \<longleftrightarrow> (\<exists>n. scanStrDecimalLiteral (trim u) = Some (n, []))"
      using False None scanStrDecimalLiteral_not_NaN [of "trim u"]
      by (auto simp: toNumber_def split: option.splits)
    with None False show ?thesis
      by (simp add: scanStrDecimalLiteral_whole jsNumericLiteral_def)
  qed
qed

lemma nonDecimal_start: "nonDecimalIntegerLiteral t = Some n \<Longrightarrow> scanStrDecimalLiteral t \<noteq> None"
proof -
  assume a: "nonDecimalIntegerLiteral t = Some n"
  then obtain x ds where t: "t = 0x30 # x # ds"
    by (auto simp: nonDecimalIntegerLiteral_def split: list.splits if_splits)
  have "snd (signOf t) = t"
    by (simp add: t signOf_def)
  moreover have "decimalStart t"
    by (simp add: t isDigit_def)
  ultimately show ?thesis
    using scanStrDecimalLiteral_start [of t] by simp
qed

lemma jsNumericLiteral_scan: "jsNumericLiteral t \<Longrightarrow> scanStrDecimalLiteral t \<noteq> None"
  using scanStrDecimalLiteral_whole [of t] nonDecimal_start [of t]
  by (auto simp: jsNumericLiteral_def)

lemma numericString_iff: "numericString u \<longleftrightarrow> jsNumericLiteral (trim u)"
proof
  assume n: "numericString u"
  then have "scanStrDecimalLiteral (trimStart u) \<noteq> None"
    by (auto simp: numericString_def isNaN_def parseFloat_def split: option.splits)
  then have "trimStart u \<noteq> []"
    using scanStrDecimalLiteral_Nil by auto
  then have "trim u \<noteq> []"
    using trimStart_Nil by blast
  with n show "jsNumericLiteral (trim u)"
    using toNumber_NaN_iff [of u] by (simp add: numericString_def isNaN_def)
next
  assume l: "jsNumericLiteral (trim u)"
  then have ne: "trim u \<noteq> []"
    using jsNumericLiteral_Nil by auto
  obtain w where w: "trimStart u = trim u @ w"
    using trimStart_trim by blast
  have "scanStrDecimalLiteral (trimStart u) \<noteq> None"
    unfolding w using ne l by (intro scanStrDecimalLiteral_append jsNumericLiteral_scan)
  then have "parseFloat u \<noteq> NaN"
    using scanStrDecimalLiteral_not_NaN [of "trimStart u"]
    by (auto simp: parseFloat_def split: option.splits)
  with l show "numericString u"
    using toNumber_NaN_iff [of u] by (simp add: numericString_def isNaN_def)
qed

text \<open>
  Claim C4, as the spec words it, at three strings that are not floating-point literals of
  the claim's grammar and are typed as numbers: the hexadecimal literal \<open>0x1A\<close> gives 26,
  \<open>Infinity\<close> gives infinity, and \<open>' 12 '\<close>, unwrapped to \<open>12\<close> between spaces, gives 12.
\<close>

theorem parseValue_numeric_counterexample:
  "unwrapQuotes (str ''0x1A'') = str ''0x1A''
   \<and> \<not> spec_floatLiteral (str ''0x1A'')
   \<and> parseValue (str ''0x1A'') = JNum (Fin 26)
   \<and> unwrapQuotes (str ''Infinity'') = str ''Infinity''
   \<and> \<not> spec_floatLiteral (str ''Infinity'')
   \<and> parseValue (str ''Infinity'') = JNum PosInf
   \<and> unwrapQuotes ([0x27] @ str '' 12 '' @ [0x27]) = str '' 12 ''
   \<and> \<not> spec_floatLiteral (str '' 12 '')
   \<and> parseValue ([0x27] @ str '' 12 '' @ [0x27]) = JNum (Fin 12)"
  by code_simp

text \<open>
  Claim C4, amended. \<open>parseValue\<close> gives a number exactly when the unwrapped string, after
  white space is trimmed from both ends, is as a whole a numeric literal of the language:
  a floating-point literal of the claim's grammar, a signed \<open>Infinity\<close>, or an unsigned
  \<open>0x\<close>, \<open>0o\<close> or \<open>0b\<close> integer literal. Every other string, also one that only starts
  with a number, goes to the boolean and string rules. Which number a \<open>0o\<close> or \<open>0b\<close>
  literal gives is not part of the statement.
\<close>

theorem parseValue_numeric_iff:
  "u = unwrapQuotes v \<Longrightarrow>
   ((\<exists>n. parseValue v = JNum n)
      \<longleftrightarrow> spec_floatLiteral (trim u) \<or> infinityLiteral (trim u)
          \<or> nonDecimalIntegerLiteral (trim u) \<noteq> None)
   \<and> ((\<forall>n. parseValue v \<noteq> JNum n) \<longrightarrow>
        parseValue v = (if toLowerCase u = str ''true'' then JBool True
                        else if toLowerCase u = str ''false'' then JBool False
                        else JStr u))"
proof -
  assume u: "u = unwrapQuotes v"
  have "(\<exists>n. parseValue v = JNum n) \<longleftrightarrow> numericString u"
    by (auto simp: parseValue_def typeUnwrapped_def u)
  moreover have "\<not> numericString u \<Longrightarrow>
      parseValue v = (if toLowerCase u = str ''true'' then JBool True
                      else if toLowerCase u = str ''false'' then JBool False
                      else JStr u)"
    by (simp add: parseValue_def typeUnwrapped_def u)
  ultimately show ?thesis
    unfolding numericString_iff jsNumericLiteral_def by blast
qed


theorem parseValue_numeric_iff_witness:
  "spec_floatLiteral (trim (unwrapQuotes (str ''-1.5e3'')))
   \<and> (\<exists>n. parseValue (str ''-1.5e3'') = JNum n)
   \<and> \<not> spec_floatLiteral (trim (unwrapQuotes (str ''12abc'')))
   \<and> \<not> infinityLiteral (trim (unwrapQuotes (str ''12abc'')))
   \<and> nonDecimalIntegerLiteral (trim (unwrapQuotes (str ''12abc''))) = None
   \<and> parseValue (str ''12abc'') = JStr (str ''12abc'')"
proof -
  have a: "spec_floatLiteral (trim (unwrapQuotes (str ''-1.5e3'')))"
    by code_simp
  have b: "\<not> spec_floatLiteral (trim (unwrapQuotes (str ''12abc'')))"
    "\<not> infinityLiteral (trim (unwrapQuotes (str ''12abc'')))"
    "nonDecimalIntegerLiteral (trim (unwrapQuotes (str ''12abc''))) = None"
    by code_simp+
  have c: "(if toLowerCase (unwrapQuotes (str ''12abc'')) = str ''true'' then JBool True
            else if toLowerCase (unwrapQuotes (str ''12abc'')) = str ''false'' then JBool False
            else JStr (unwrapQuotes (str ''12abc''))) = JStr (str ''12abc'')"
    by code_simp
  have d: "\<exists>n. parseValue (str ''-1.5e3'') = JNum n"
    using parseValue_numeric_iff [of "unwrapQuotes (str ''-1.5e3'')" "str ''-1.5e3''"] a by blast
  have e: "parseValue (str ''12abc'') = JStr (str ''12abc'')"
    using parseValue_numeric_iff [of "unwrapQuotes (str ''12abc'')" "str ''12abc''"] b
    unfolding c by simp
  show ?thesis
    using a b d e by blast
qed


section \<open>Keys and values of an emitted record\<close>


















section \<open>Cells that hold an empty quoted string\<close>












section \<open>Integer and fractional results of value typing\<close>


















end
